theory Spec2Isabelle
  imports Main
begin

section \<open>Settings (visitors/settings.py)\<close>

text \<open>
  Every option of \<^verbatim>\<open>visitors/settings.py\<close> is read once, with a default, from the
  Django settings. The stages take the record as a parameter; \<open>default_settings\<close> holds
  the defaults the file gives.
\<close>

record settings =
  VISITOR_SESSION_KEY :: string
  VISITOR_QUERYSTRING_KEY :: string
  VISITOR_SESSION_EXPIRY :: "int option"
  VISITOR_TOKEN_EXPIRY :: int
  DEFAULT_MAX_LINK_USAGES_ALLOWED :: int

definition default_settings :: settings where
  "default_settings =
     \<lparr>VISITOR_SESSION_KEY = ''visitor:session'',
      VISITOR_QUERYSTRING_KEY = ''vuid'',
      VISITOR_SESSION_EXPIRY = Some 0,
      VISITOR_TOKEN_EXPIRY = 300,
      DEFAULT_MAX_LINK_USAGES_ALLOWED = 10\<rparr>"

section \<open>The data the stages work on\<close>

text \<open>
  Modelled from the spec: the \<^verbatim>\<open>Visitor\<close> entity of \<^verbatim>\<open>visitors/models.py\<close>, which is
  not among the sources. The fields are the ones the middleware and the tests touch
  (\<^verbatim>\<open>uuid\<close>, \<^verbatim>\<open>email\<close>, \<^verbatim>\<open>scope\<close>, \<^verbatim>\<open>is_active\<close>, \<^verbatim>\<open>usage_count\<close>,
  \<^verbatim>\<open>max_usages_allowed\<close>) and the creation time of the spec's data model. Times are
  whole seconds.
\<close>

record Visitor =
  uuid :: string
  email :: string
  scope :: string
  created_at :: int
  is_active :: bool
  usage_count :: int
  max_usages_allowed :: int

text \<open>
  One record holds what a request can see and change: the request object's own fields
  (\<^verbatim>\<open>request.GET\<close>, \<^verbatim>\<open>request.session\<close>, \<^verbatim>\<open>request.visitor\<close>,
  \<^verbatim>\<open>request.user.is_visitor\<close>), the visitor table behind \<^verbatim>\<open>Visitor.objects\<close>, keyed by
  identifier, and the list of the rows written by \<^verbatim>\<open>save()\<close>, oldest first.
\<close>

record state =
  GET :: "string \<rightharpoonup> string"
  session :: "string \<rightharpoonup> string"
  visitor :: "Visitor option"
  is_visitor :: bool
  objects :: "string \<rightharpoonup> Visitor"
  saved :: "Visitor list"

datatype error = DoesNotExist | InvalidVisitorPass

text \<open>Python's \<^verbatim>\<open>not x\<close> for an optional string: \<^verbatim>\<open>None\<close> and the empty string.\<close>

definition falsy :: "string option \<Rightarrow> bool" where
  "falsy x = (case x of None \<Rightarrow> True | Some u \<Rightarrow> u = [])"

text \<open>The table holds every row under the row's own identifier.\<close>

definition keyed_by_uuid :: "(string \<rightharpoonup> Visitor) \<Rightarrow> bool" where
  "keyed_by_uuid tab = (\<forall>k v. tab k = Some v \<longrightarrow> uuid v = k)"

section \<open>Persistence\<close>

text \<open>\<^verbatim>\<open>Visitor.objects.get(uuid=u)\<close>: the row, or \<^verbatim>\<open>Visitor.DoesNotExist\<close>.\<close>

definition objects_get :: "state \<Rightarrow> string \<Rightarrow> error + Visitor" where
  "objects_get s u = (case objects s u of None \<Rightarrow> Inl DoesNotExist | Some v \<Rightarrow> Inr v)"

text \<open>\<^verbatim>\<open>Visitor.objects.get(uuid=u, is_active=True)\<close>.\<close>

definition objects_get_active :: "state \<Rightarrow> string \<Rightarrow> error + Visitor" where
  "objects_get_active s u =
     (case objects s u of
        None \<Rightarrow> Inl DoesNotExist
      | Some v \<Rightarrow> if is_active v then Inr v else Inl DoesNotExist)"

text \<open>\<^verbatim>\<open>visitor.save()\<close>: the object's fields replace the stored row.\<close>

definition save :: "Visitor \<Rightarrow> state \<Rightarrow> state" where
  "save v s = s\<lparr>objects := (objects s)(uuid v \<mapsto> v), saved := saved s @ [v]\<rparr>"

section \<open>Validation (visitors/models.py)\<close>

text \<open>
  Modelled from the spec: the validity predicate of the data model. A visitor is valid
  at a moment iff it is active and the time since its creation is at most the token
  expiry window.
\<close>

definition is_valid :: "settings \<Rightarrow> int \<Rightarrow> Visitor \<Rightarrow> bool" where
  "is_valid cfg now v = (is_active v \<and> now - created_at v \<le> VISITOR_TOKEN_EXPIRY cfg)"

text \<open>
  Modelled from the spec: \<^verbatim>\<open>Visitor.deactivate\<close>, the explicit deactivation operation
  (the tests call it): the flag is cleared and the row saved.
\<close>

definition deactivate :: "Visitor \<Rightarrow> state \<Rightarrow> state" where
  "deactivate v s = save (v\<lparr>is_active := False\<rparr>) s"

text \<open>
  Modelled from the spec: \<^verbatim>\<open>Visitor.validate\<close>, which the Token Extractor calls and whose
  body is not among the sources. It returns normally for a valid visitor and raises
  \<^verbatim>\<open>InvalidVisitorPass\<close> otherwise. The spec has a record that exists and fails the
  predicate marked permanently deactivated ("an explicit deactivation operation invoked
  when validation detects an invalid-but-extant record"); the \<^verbatim>\<open>except\<close> branch of the
  middleware writes nothing itself, so that write is placed here. The clock the
  validation reads is the parameter \<open>now\<close>.
\<close>

definition validate :: "settings \<Rightarrow> int \<Rightarrow> Visitor \<Rightarrow> state \<Rightarrow> (error + unit) \<times> state" where
  "validate cfg now v s =
     (if is_valid cfg now v then (Inr (), s)
      else (Inl InvalidVisitorPass, deactivate v s))"

section \<open>Session helpers (visitors/session.py)\<close>

text \<open>
  Modelled from the spec: the three helpers of \<^verbatim>\<open>visitors/session.py\<close>, which is not
  among the sources. The session store is a dictionary read, written and cleared under
  the one configured key; the value stashed is the visitor's identifier. The middleware
  calls \<open>stash_visitor_uuid\<close> only when \<^verbatim>\<open>request.visitor\<close> is set. The lifetime of
  the session (\<^verbatim>\<open>VISITOR_SESSION_EXPIRY\<close>) belongs to the session store and is not part
  of the model: a session is whatever dictionary the request arrives with.
\<close>

definition stash_visitor_uuid :: "settings \<Rightarrow> state \<Rightarrow> state" where
  "stash_visitor_uuid cfg s =
     (case visitor s of
        None \<Rightarrow> s
      | Some v \<Rightarrow> s\<lparr>session := (session s)(VISITOR_SESSION_KEY cfg \<mapsto> uuid v)\<rparr>)"

definition get_visitor_uuid :: "settings \<Rightarrow> state \<Rightarrow> string option" where
  "get_visitor_uuid cfg s = session s (VISITOR_SESSION_KEY cfg)"

definition clear_visitor_uuid :: "settings \<Rightarrow> state \<Rightarrow> state" where
  "clear_visitor_uuid cfg s = s\<lparr>session := (session s)(VISITOR_SESSION_KEY cfg := None)\<rparr>"

section \<open>The three stages (visitors/middleware.py)\<close>

text \<open>
  Each \<^verbatim>\<open>__call__\<close> changes the request and ends, on every path, with
  \<^verbatim>\<open>return self.get_response(request)\<close>. The model keeps that shape: a stage takes the
  rest of the chain as \<open>get_response\<close> and returns whatever it returns, so a response, or
  an exception of the rest of the chain, passes through untouched.
\<close>

text \<open>The \<^verbatim>\<open>try\<close> block of the Token Extractor: the lookup, then the validation.\<close>

definition get_and_validate :: "settings \<Rightarrow> int \<Rightarrow> string \<Rightarrow> state \<Rightarrow> (error + Visitor) \<times> state" where
  "get_and_validate cfg now visitor_uuid s =
     (case objects_get s visitor_uuid of
        Inl e \<Rightarrow> (Inl e, s)
      | Inr v \<Rightarrow>
          (case validate cfg now v s of
             (Inl e, s') \<Rightarrow> (Inl e, s')
           | (Inr _, s') \<Rightarrow> (Inr v, s')))"

definition VisitorRequestMiddleware :: "settings \<Rightarrow> int \<Rightarrow> (state \<Rightarrow> 'a) \<Rightarrow> state \<Rightarrow> 'a" where
  "VisitorRequestMiddleware cfg now get_response s0 =
     (let s = s0\<lparr>visitor := None, is_visitor := False\<rparr>;
          visitor_uuid = GET s (VISITOR_QUERYSTRING_KEY cfg)
      in if falsy visitor_uuid then get_response s
         else
           (case get_and_validate cfg now (the visitor_uuid) s of
              (Inl DoesNotExist, s') \<Rightarrow> get_response s'
            | (Inl InvalidVisitorPass, s') \<Rightarrow> get_response s'
            | (Inr v, s') \<Rightarrow> get_response (s'\<lparr>visitor := Some v, is_visitor := True\<rparr>)))"

definition VisitorSessionMiddleware :: "settings \<Rightarrow> (state \<Rightarrow> 'a) \<Rightarrow> state \<Rightarrow> 'a" where
  "VisitorSessionMiddleware cfg get_response s =
     (if visitor s \<noteq> None then get_response (stash_visitor_uuid cfg s)
      else
        (let visitor_uuid = get_visitor_uuid cfg s
         in if falsy visitor_uuid then get_response s
            else
              (case objects_get_active s (the visitor_uuid) of
                 Inl _ \<Rightarrow> get_response (clear_visitor_uuid cfg s)
               | Inr v \<Rightarrow> get_response (s\<lparr>visitor := Some v, is_visitor := True\<rparr>))))"

definition VisitorCountMiddleware :: "(state \<Rightarrow> 'a) \<Rightarrow> state \<Rightarrow> 'a" where
  "VisitorCountMiddleware get_response s =
     (case visitor s of
        None \<Rightarrow> get_response s
      | Some v \<Rightarrow>
          (let v1 = v\<lparr>usage_count := usage_count v + 1\<rparr>;
               s1 = save v1 (s\<lparr>visitor := Some v1\<rparr>)
           in if max_usages_allowed v1 < usage_count v1
              then
                (let v2 = v1\<lparr>is_active := False\<rparr>;
                     s2 = save v2 (s1\<lparr>visitor := Some v2\<rparr>)
                 in get_response (s2\<lparr>is_visitor := False\<rparr>))
              else get_response s1))"

text \<open>
  In the Usage Limiter \<^verbatim>\<open>visitor\<close> and \<^verbatim>\<open>request.visitor\<close> are one object: what the
  stage assigns to its fields is what the rest of the request sees in the context, and
  what \<^verbatim>\<open>save()\<close> writes.

  The chain in the order the docstrings fix: Token Extractor, Session Synchronizer, Usage
  Limiter, then the view.
\<close>

definition pipeline :: "settings \<Rightarrow> int \<Rightarrow> (state \<Rightarrow> 'a) \<Rightarrow> state \<Rightarrow> 'a" where
  "pipeline cfg now view =
     VisitorRequestMiddleware cfg now
       (VisitorSessionMiddleware cfg (VisitorCountMiddleware view))"

section \<open>Request sequences\<close>

text \<open>
  A request arrives at a time, with its query string and the session of its browser, and
  meets the table the earlier requests left. As in the tests, the view hands back the
  request it received (\<^verbatim>\<open>lambda r: r\<close>), so the result is the state the view saw.
\<close>

definition handle :: "settings \<Rightarrow> int \<Rightarrow> (string \<rightharpoonup> string) \<Rightarrow> (string \<rightharpoonup> string) \<Rightarrow> state \<Rightarrow> state" where
  "handle cfg now query sess s =
     pipeline cfg now (\<lambda>r. r)
       (s\<lparr>GET := query, session := sess, visitor := None, is_visitor := False\<rparr>)"

fun run :: "settings \<Rightarrow> (int \<times> (string \<rightharpoonup> string) \<times> (string \<rightharpoonup> string)) list \<Rightarrow> state \<Rightarrow> state list" where
  "run cfg [] s = []"
| "run cfg ((now, query, sess) # rs) s =
     (let s' = handle cfg now query sess s in s' # run cfg rs s')"

section \<open>Requests that come from one visitor\<close>

text \<open>
  A request, given as its time, its query string and its session, presents the identifier
  \<open>u\<close> when it carries \<open>u\<close> as the token, with a session that holds nothing or \<open>u\<close>, or
  carries no token and a session that holds \<open>u\<close>. It is in time for a visitor when it
  carries no token or arrives within the expiry window counted from the visitor's
  creation.
\<close>

fun presents :: "settings \<Rightarrow> string \<Rightarrow> int \<times> (string \<rightharpoonup> string) \<times> (string \<rightharpoonup> string) \<Rightarrow> bool" where
  "presents cfg u (now, query, sess) =
     ((query (VISITOR_QUERYSTRING_KEY cfg) = Some u
         \<and> (falsy (sess (VISITOR_SESSION_KEY cfg)) \<or> sess (VISITOR_SESSION_KEY cfg) = Some u))
      \<or> (falsy (query (VISITOR_QUERYSTRING_KEY cfg)) \<and> sess (VISITOR_SESSION_KEY cfg) = Some u))"

fun in_time :: "settings \<Rightarrow> Visitor \<Rightarrow> int \<times> (string \<rightharpoonup> string) \<times> (string \<rightharpoonup> string) \<Rightarrow> bool" where
  "in_time cfg v (now, query, sess) =
     (falsy (query (VISITOR_QUERYSTRING_KEY cfg))
      \<or> now - created_at v \<le> VISITOR_TOKEN_EXPIRY cfg)"

text \<open>
  Between the stages of one request, a visitor in the context was read from the table
  during this request: it is the stored row, and the row is active.
\<close>

definition loaded :: "state \<Rightarrow> bool" where
  "loaded s = (\<forall>x. visitor s = Some x \<longrightarrow> objects s (uuid x) = Some x \<and> is_active x)"

section \<open>Example data\<close>

text \<open>
  The fixture of the tests (\<^verbatim>\<open>Visitor.objects.create(email="fred@example.com",
  scope="foo")\<close>): a new visitor, active, unused, with the default ceiling; and a state
  with nothing in it.
\<close>

definition fred :: Visitor where
  "fred =
     \<lparr>uuid = ''f3d0'', email = ''fred@example.com'', scope = ''foo'', created_at = 0,
      is_active = True, usage_count = 0, max_usages_allowed = 10\<rparr>"

definition blank :: state where
  "blank =
     \<lparr>GET = Map.empty, session = Map.empty, visitor = None, is_visitor = False,
      objects = Map.empty, saved = []\<rparr>"

section \<open>Basic facts about the stages\<close>

text \<open>Two states with the same fields are the same state.\<close>

lemma state_cong:
  fixes a b :: state
  assumes "GET a = GET b" and "session a = session b" and "visitor a = visitor b"
    and "is_visitor a = is_visitor b" and "objects a = objects b" and "saved a = saved b"
  shows "f a = f b"
proof -
  have "a = b" using assms by (intro state.equality) simp_all
  then show ?thesis by simp
qed

lemma falsy_simps [simp]:
  "falsy None" "falsy (Some u) = (u = [])"
  by (simp_all add: falsy_def)

lemma request_no_token:
  "falsy (GET s (VISITOR_QUERYSTRING_KEY cfg)) \<Longrightarrow>
   VisitorRequestMiddleware cfg now get_response s =
     get_response (s\<lparr>visitor := None, is_visitor := False\<rparr>)"
  by (simp add: VisitorRequestMiddleware_def Let_def)

lemma request_unknown_token:
  "GET s (VISITOR_QUERYSTRING_KEY cfg) = Some u \<Longrightarrow> objects s u = None \<Longrightarrow>
   VisitorRequestMiddleware cfg now get_response s =
     get_response (s\<lparr>visitor := None, is_visitor := False\<rparr>)"
  by (simp add: VisitorRequestMiddleware_def get_and_validate_def objects_get_def Let_def)

lemma request_valid_token:
  "GET s (VISITOR_QUERYSTRING_KEY cfg) = Some u \<Longrightarrow> u \<noteq> [] \<Longrightarrow> objects s u = Some v \<Longrightarrow>
   is_valid cfg now v \<Longrightarrow>
   VisitorRequestMiddleware cfg now get_response s =
     get_response (s\<lparr>visitor := Some v, is_visitor := True\<rparr>)"
  by (simp add: VisitorRequestMiddleware_def get_and_validate_def objects_get_def validate_def
      Let_def)

lemma request_invalid_token:
  "GET s (VISITOR_QUERYSTRING_KEY cfg) = Some u \<Longrightarrow> u \<noteq> [] \<Longrightarrow> objects s u = Some v \<Longrightarrow>
   \<not> is_valid cfg now v \<Longrightarrow>
   VisitorRequestMiddleware cfg now get_response s =
     get_response (deactivate v (s\<lparr>visitor := None, is_visitor := False\<rparr>))"
  by (simp add: VisitorRequestMiddleware_def get_and_validate_def objects_get_def validate_def
      Let_def)

lemma session_fresh_visitor:
  "visitor s = Some v \<Longrightarrow>
   VisitorSessionMiddleware cfg get_response s =
     get_response (s\<lparr>session := (session s)(VISITOR_SESSION_KEY cfg \<mapsto> uuid v)\<rparr>)"
  by (simp add: VisitorSessionMiddleware_def stash_visitor_uuid_def)

lemma session_nothing_stashed:
  "visitor s = None \<Longrightarrow> falsy (session s (VISITOR_SESSION_KEY cfg)) \<Longrightarrow>
   VisitorSessionMiddleware cfg get_response s = get_response s"
  by (simp add: VisitorSessionMiddleware_def get_visitor_uuid_def)

lemma session_active_visitor:
  "visitor s = None \<Longrightarrow> session s (VISITOR_SESSION_KEY cfg) = Some u \<Longrightarrow> u \<noteq> [] \<Longrightarrow>
   objects s u = Some v \<Longrightarrow> is_active v \<Longrightarrow>
   VisitorSessionMiddleware cfg get_response s =
     get_response (s\<lparr>visitor := Some v, is_visitor := True\<rparr>)"
  by (simp add: VisitorSessionMiddleware_def get_visitor_uuid_def objects_get_active_def)

lemma session_stale_visitor:
  "visitor s = None \<Longrightarrow> session s (VISITOR_SESSION_KEY cfg) = Some u \<Longrightarrow> u \<noteq> [] \<Longrightarrow>
   objects s u = None \<or> (\<exists>v. objects s u = Some v \<and> \<not> is_active v) \<Longrightarrow>
   VisitorSessionMiddleware cfg get_response s =
     get_response (s\<lparr>session := (session s)(VISITOR_SESSION_KEY cfg := None)\<rparr>)"
  by (auto simp add: VisitorSessionMiddleware_def get_visitor_uuid_def objects_get_active_def
      clear_visitor_uuid_def)

lemma count_no_visitor:
  "visitor s = None \<Longrightarrow> VisitorCountMiddleware get_response s = get_response s"
  by (simp add: VisitorCountMiddleware_def)

lemma count_within_limit:
  "visitor s = Some v \<Longrightarrow> usage_count v + 1 \<le> max_usages_allowed v \<Longrightarrow>
   VisitorCountMiddleware get_response s =
     get_response
       (s\<lparr>visitor := Some (v\<lparr>usage_count := usage_count v + 1\<rparr>),
          objects := (objects s)(uuid v \<mapsto> v\<lparr>usage_count := usage_count v + 1\<rparr>),
          saved := saved s @ [v\<lparr>usage_count := usage_count v + 1\<rparr>]\<rparr>)"
  by (simp add: VisitorCountMiddleware_def save_def Let_def)

lemma count_over_limit:
  "visitor s = Some v \<Longrightarrow> max_usages_allowed v < usage_count v + 1 \<Longrightarrow>
   VisitorCountMiddleware get_response s =
     get_response
       (s\<lparr>visitor := Some (v\<lparr>usage_count := usage_count v + 1, is_active := False\<rparr>),
          is_visitor := False,
          objects := (objects s)(uuid v \<mapsto> v\<lparr>usage_count := usage_count v + 1, is_active := False\<rparr>),
          saved := saved s @ [v\<lparr>usage_count := usage_count v + 1\<rparr>,
                              v\<lparr>usage_count := usage_count v + 1, is_active := False\<rparr>]\<rparr>)"
  by (simp add: VisitorCountMiddleware_def save_def Let_def) (rule state_cong; simp)

text \<open>The chain after a token that identifies a valid visitor, up to the Usage Limiter.\<close>

lemma pipeline_valid_token:
  assumes "GET s (VISITOR_QUERYSTRING_KEY cfg) = Some u" and "u \<noteq> []"
    and "objects s u = Some v" and "is_valid cfg now v" and "uuid v = u"
  shows "pipeline cfg now view s =
     VisitorCountMiddleware view
       (s\<lparr>session := (session s)(VISITOR_SESSION_KEY cfg \<mapsto> u),
          visitor := Some v, is_visitor := True\<rparr>)"
  using assms
  by (simp add: pipeline_def request_valid_token session_fresh_visitor)
    (rule state_cong; simp)

text \<open>The chain after a token that identifies nobody: what the session says decides.\<close>

lemma pipeline_no_token:
  assumes "falsy (GET s (VISITOR_QUERYSTRING_KEY cfg))
           \<or> (\<exists>u. GET s (VISITOR_QUERYSTRING_KEY cfg) = Some u \<and> objects s u = None)"
  shows "pipeline cfg now view s =
     VisitorSessionMiddleware cfg (VisitorCountMiddleware view)
       (s\<lparr>visitor := None, is_visitor := False\<rparr>)"
  using assms
  by (auto simp add: pipeline_def request_no_token request_unknown_token)

text \<open>Whatever the request, a flag the chain leaves set belongs to an active, stored visitor.\<close>

lemma pipeline_grant_active:
  "is_visitor (pipeline cfg now (\<lambda>r. r) s) \<Longrightarrow>
   \<exists>v. visitor (pipeline cfg now (\<lambda>r. r) s) = Some v \<and> is_active v
      \<and> objects (pipeline cfg now (\<lambda>r. r) s) (uuid v) = Some v"
  by (auto simp add: pipeline_def VisitorRequestMiddleware_def VisitorSessionMiddleware_def
      VisitorCountMiddleware_def get_and_validate_def objects_get_def objects_get_active_def
      validate_def deactivate_def save_def stash_visitor_uuid_def get_visitor_uuid_def
      clear_visitor_uuid_def is_valid_def Let_def
      split: option.splits if_splits sum.splits error.splits prod.splits)

text \<open>A flag the Token Extractor sets belongs to the visitor the token names, valid now.\<close>

lemma request_grant_valid:
  "is_visitor (VisitorRequestMiddleware cfg now (\<lambda>r. r) s) \<Longrightarrow>
   \<exists>u v. GET s (VISITOR_QUERYSTRING_KEY cfg) = Some u \<and> objects s u = Some v
      \<and> visitor (VisitorRequestMiddleware cfg now (\<lambda>r. r) s) = Some v
      \<and> is_active v \<and> now - created_at v \<le> VISITOR_TOKEN_EXPIRY cfg"
  by (auto simp add: VisitorRequestMiddleware_def get_and_validate_def objects_get_def
      validate_def deactivate_def save_def is_valid_def Let_def falsy_def
      split: option.splits if_splits sum.splits error.splits prod.splits)

text \<open>The chain after a token that names a stored visitor failing the predicate.\<close>

lemma pipeline_invalid_token:
  assumes "GET s (VISITOR_QUERYSTRING_KEY cfg) = Some u" and "u \<noteq> []"
    and "objects s u = Some v" and "\<not> is_valid cfg now v"
  shows "pipeline cfg now view s =
     VisitorSessionMiddleware cfg (VisitorCountMiddleware view)
       (deactivate v (s\<lparr>visitor := None, is_visitor := False\<rparr>))"
  using assms by (simp add: pipeline_def request_invalid_token)

section \<open>Stage by stage\<close>

text \<open>
  Every path of a stage ends in the call of the rest of the chain, so a stage is the rest
  of the chain after the stage's own change of the state.
\<close>

lemma request_cps:
  "VisitorRequestMiddleware cfg now k s = k (VisitorRequestMiddleware cfg now (\<lambda>r. r) s)"
  by (simp add: VisitorRequestMiddleware_def Let_def
      split: option.splits sum.splits error.splits prod.splits)

lemma session_cps:
  "VisitorSessionMiddleware cfg k s = k (VisitorSessionMiddleware cfg (\<lambda>r. r) s)"
  by (simp add: VisitorSessionMiddleware_def Let_def split: sum.splits)

lemma count_cps:
  "VisitorCountMiddleware k s = k (VisitorCountMiddleware (\<lambda>r. r) s)"
  by (simp add: VisitorCountMiddleware_def Let_def split: option.splits)

lemma pipeline_stages:
  "pipeline cfg now k s =
     k (VisitorCountMiddleware (\<lambda>r. r)
          (VisitorSessionMiddleware cfg (\<lambda>r. r)
             (VisitorRequestMiddleware cfg now (\<lambda>r. r) s)))"
  unfolding pipeline_def
  by (subst request_cps, subst session_cps, subst count_cps) (rule refl)

section \<open>A deactivated row stays as it is\<close>

lemma request_keeps_revoked:
  assumes "keyed_by_uuid (objects s)" and "objects s u = Some w" and "\<not> is_active w"
  shows "keyed_by_uuid (objects (VisitorRequestMiddleware cfg now (\<lambda>r. r) s))
       \<and> objects (VisitorRequestMiddleware cfg now (\<lambda>r. r) s) u = Some w
       \<and> loaded (VisitorRequestMiddleware cfg now (\<lambda>r. r) s)"
  using assms
  by (auto simp add: VisitorRequestMiddleware_def get_and_validate_def objects_get_def
      validate_def deactivate_def save_def is_valid_def Let_def keyed_by_uuid_def loaded_def
      split: option.splits)

lemma session_keeps_revoked:
  assumes "keyed_by_uuid (objects s)" and "objects s u = Some w" and "\<not> is_active w"
    and "loaded s"
  shows "keyed_by_uuid (objects (VisitorSessionMiddleware cfg (\<lambda>r. r) s))
       \<and> objects (VisitorSessionMiddleware cfg (\<lambda>r. r) s) u = Some w
       \<and> loaded (VisitorSessionMiddleware cfg (\<lambda>r. r) s)"
  using assms
  by (auto simp add: VisitorSessionMiddleware_def objects_get_active_def
      stash_visitor_uuid_def get_visitor_uuid_def clear_visitor_uuid_def Let_def
      keyed_by_uuid_def loaded_def
      split: option.splits)

lemma count_keeps_revoked:
  assumes "keyed_by_uuid (objects s)" and "objects s u = Some w" and "\<not> is_active w"
    and "loaded s"
  shows "keyed_by_uuid (objects (VisitorCountMiddleware (\<lambda>r. r) s))
       \<and> objects (VisitorCountMiddleware (\<lambda>r. r) s) u = Some w
       \<and> (\<forall>x. visitor (VisitorCountMiddleware (\<lambda>r. r) s) = Some x \<longrightarrow> uuid x \<noteq> u)"
  using assms
  by (auto simp add: VisitorCountMiddleware_def save_def Let_def
      keyed_by_uuid_def loaded_def
      split: option.splits)

lemma handle_keeps_revoked:
  assumes "keyed_by_uuid (objects s)" and "objects s u = Some w" and "\<not> is_active w"
  shows "keyed_by_uuid (objects (handle cfg now query sess s))
       \<and> objects (handle cfg now query sess s) u = Some w
       \<and> (\<forall>x. visitor (handle cfg now query sess s) = Some x \<longrightarrow> uuid x \<noteq> u)"
proof -
  define s0 where "s0 = s\<lparr>GET := query, session := sess, visitor := None, is_visitor := False\<rparr>"
  define s1 where "s1 = VisitorRequestMiddleware cfg now (\<lambda>r. r) s0"
  define s2 where "s2 = VisitorSessionMiddleware cfg (\<lambda>r. r) s1"
  have h: "handle cfg now query sess s = VisitorCountMiddleware (\<lambda>r. r) s2"
    by (simp add: handle_def pipeline_stages s0_def s1_def s2_def)
  have "keyed_by_uuid (objects s0)" and "objects s0 u = Some w"
    using assms(1,2) by (simp_all add: s0_def)
  then have a1: "keyed_by_uuid (objects s1)" "objects s1 u = Some w" "loaded s1"
    unfolding s1_def using request_keeps_revoked [OF _ _ assms(3)] by blast+
  then have a2: "keyed_by_uuid (objects s2)" "objects s2 u = Some w" "loaded s2"
    unfolding s2_def using session_keeps_revoked [OF _ _ assms(3)] by blast+
  show ?thesis
    unfolding h using count_keeps_revoked [OF a2(1,2) assms(3) a2(3)] .
qed

lemma run_keeps_revoked:
  assumes "keyed_by_uuid (objects s)" and "objects s u = Some w" and "\<not> is_active w"
    and "s' \<in> set (run cfg rs s)"
  shows "objects s' u = Some w \<and> (\<forall>x. visitor s' = Some x \<longrightarrow> uuid x \<noteq> u)"
  using assms
proof (induction rs arbitrary: s)
  case Nil
  then show ?case by simp
next
  case (Cons r rs)
  obtain now query sess where r: "r = (now, query, sess)"
    by (cases r)
  note step = handle_keeps_revoked [OF Cons.prems(1,2,3), of cfg now query sess]
  from Cons.prems(4) consider
      (head) "s' = handle cfg now query sess s"
    | (tail) "s' \<in> set (run cfg rs (handle cfg now query sess s))"
    by (auto simp add: r Let_def)
  then show ?case
  proof cases
    case head
    with step show ?thesis by simp
  next
    case tail
    from step have "keyed_by_uuid (objects (handle cfg now query sess s))"
      and "objects (handle cfg now query sess s) u = Some w"
      by simp_all
    then show ?thesis
      using Cons.prems(3) tail by (rule Cons.IH)
  qed
qed

section \<open>One request of a known visitor\<close>

lemma handle_valid_token:
  assumes "query (VISITOR_QUERYSTRING_KEY cfg) = Some u" and "u \<noteq> []"
    and "objects s u = Some v" and "uuid v = u" and "is_valid cfg now v"
  shows "handle cfg now query sess s =
     VisitorCountMiddleware (\<lambda>r. r)
       (s\<lparr>GET := query, session := sess(VISITOR_SESSION_KEY cfg \<mapsto> u),
          visitor := Some v, is_visitor := True\<rparr>)"
proof -
  define s0 where "s0 = s\<lparr>GET := query, session := sess, visitor := None, is_visitor := False\<rparr>"
  have token: "GET s0 (VISITOR_QUERYSTRING_KEY cfg) = Some u"
    and row: "objects s0 u = Some v"
    using assms(1,3) by (simp_all add: s0_def)
  have "handle cfg now query sess s = pipeline cfg now (\<lambda>r. r) s0"
    by (simp add: handle_def s0_def)
  also have "\<dots> = VisitorCountMiddleware (\<lambda>r. r)
      (s0\<lparr>session := (session s0)(VISITOR_SESSION_KEY cfg \<mapsto> u),
          visitor := Some v, is_visitor := True\<rparr>)"
    using token assms(2) row assms(5,4) by (rule pipeline_valid_token)
  also have "\<dots> = VisitorCountMiddleware (\<lambda>r. r)
      (s\<lparr>GET := query, session := sess(VISITOR_SESSION_KEY cfg \<mapsto> u),
         visitor := Some v, is_visitor := True\<rparr>)"
    by (rule state_cong) (simp_all add: s0_def)
  finally show ?thesis .
qed

lemma handle_stashed_active:
  assumes "falsy (query (VISITOR_QUERYSTRING_KEY cfg))"
    and "sess (VISITOR_SESSION_KEY cfg) = Some u" and "u \<noteq> []"
    and "objects s u = Some v" and "is_active v"
  shows "handle cfg now query sess s =
     VisitorCountMiddleware (\<lambda>r. r)
       (s\<lparr>GET := query, session := sess, visitor := Some v, is_visitor := True\<rparr>)"
  using assms
  by (simp add: handle_def pipeline_no_token session_active_visitor)

lemma handle_within_limit:
  assumes "objects s u = Some v" and "uuid v = u" and "u \<noteq> []" and "is_active v"
    and "presents cfg u (now, query, sess)" and "in_time cfg v (now, query, sess)"
    and "usage_count v < max_usages_allowed v"
  shows "is_visitor (handle cfg now query sess s)
       \<and> visitor (handle cfg now query sess s) = Some (v\<lparr>usage_count := usage_count v + 1\<rparr>)
       \<and> objects (handle cfg now query sess s) u = Some (v\<lparr>usage_count := usage_count v + 1\<rparr>)"
proof -
  from assms(5) consider
      (token) "query (VISITOR_QUERYSTRING_KEY cfg) = Some u"
    | (stash) "falsy (query (VISITOR_QUERYSTRING_KEY cfg))"
        "sess (VISITOR_SESSION_KEY cfg) = Some u"
    by auto
  then show ?thesis
  proof cases
    case token
    have valid: "is_valid cfg now v"
      using assms(3,4,6) token by (auto simp add: is_valid_def)
    show ?thesis
      using assms(2,7)
      by (simp add: handle_valid_token [where query = query and cfg = cfg, OF token assms(3,1,2) valid] count_within_limit)
  next
    case stash
    show ?thesis
      using assms(2,7)
      by (simp add: handle_stashed_active [where query = query and sess = sess and cfg = cfg, OF stash assms(3,1,4)] count_within_limit)
  qed
qed

lemma handle_over_limit:
  assumes "objects s u = Some v" and "uuid v = u" and "u \<noteq> []" and "is_active v"
    and "presents cfg u (now, query, sess)" and "in_time cfg v (now, query, sess)"
    and "max_usages_allowed v \<le> usage_count v"
  shows "\<not> is_visitor (handle cfg now query sess s)
       \<and> visitor (handle cfg now query sess s)
           = Some (v\<lparr>usage_count := usage_count v + 1, is_active := False\<rparr>)
       \<and> objects (handle cfg now query sess s) u
           = Some (v\<lparr>usage_count := usage_count v + 1, is_active := False\<rparr>)
       \<and> last (saved (handle cfg now query sess s))
           = v\<lparr>usage_count := usage_count v + 1, is_active := False\<rparr>"
proof -
  from assms(5) consider
      (token) "query (VISITOR_QUERYSTRING_KEY cfg) = Some u"
    | (stash) "falsy (query (VISITOR_QUERYSTRING_KEY cfg))"
        "sess (VISITOR_SESSION_KEY cfg) = Some u"
    by auto
  then show ?thesis
  proof cases
    case token
    have valid: "is_valid cfg now v"
      using assms(3,4,6) token by (auto simp add: is_valid_def)
    show ?thesis
      using assms(2,7)
      by (simp add: handle_valid_token [where query = query and cfg = cfg, OF token assms(3,1,2) valid] count_over_limit)
  next
    case stash
    show ?thesis
      using assms(2,7)
      by (simp add: handle_stashed_active [where query = query and sess = sess and cfg = cfg, OF stash assms(3,1,4)] count_over_limit)
  qed
qed

lemma handle_revoked:
  assumes "objects s u = Some w" and "uuid w = u" and "u \<noteq> []" and "\<not> is_active w"
    and "presents cfg u (now, query, sess)"
  shows "\<not> is_visitor (handle cfg now query sess s)
       \<and> visitor (handle cfg now query sess s) = None
       \<and> objects (handle cfg now query sess s) u = Some w"
proof -
  define s0 where "s0 = s\<lparr>GET := query, session := sess, visitor := None, is_visitor := False\<rparr>"
  have h: "handle cfg now query sess s = pipeline cfg now (\<lambda>r. r) s0"
    by (simp add: handle_def s0_def)
  have row: "objects s0 u = Some w" using assms(1) by (simp add: s0_def)
  have same: "w\<lparr>is_active := False\<rparr> = w" using assms(4) by simp
  have gone: "\<not> is_valid cfg now w" using assms(4) by (simp add: is_valid_def)
  from assms(5) consider
      (token) "GET s0 (VISITOR_QUERYSTRING_KEY cfg) = Some u"
        "falsy (session s0 (VISITOR_SESSION_KEY cfg))"
    | (both) "GET s0 (VISITOR_QUERYSTRING_KEY cfg) = Some u"
        "session s0 (VISITOR_SESSION_KEY cfg) = Some u"
    | (stash) "falsy (GET s0 (VISITOR_QUERYSTRING_KEY cfg))"
        "session s0 (VISITOR_SESSION_KEY cfg) = Some u"
    by (auto simp add: s0_def)
  then show ?thesis
  proof cases
    case token
    show ?thesis
      using assms(2) token(2) same
      by (simp add: h pipeline_invalid_token [OF token(1) assms(3) row gone] deactivate_def
          save_def session_nothing_stashed count_no_visitor)
  next
    case both
    show ?thesis
      using assms(2,3,4) both(2) same
      by (simp add: h pipeline_invalid_token [OF both(1) assms(3) row gone] deactivate_def
          save_def session_stale_visitor [where u = u] count_no_visitor)
  next
    case stash
    show ?thesis
      using assms(3,4) stash row
      by (simp add: h pipeline_no_token session_stale_visitor [where u = u] count_no_visitor)
  qed
qed

section \<open>A run of requests of a known visitor\<close>

lemma run_length [simp]: "length (run cfg rs s) = length rs"
  by (induction rs arbitrary: s) (auto simp add: Let_def)

lemma run_append:
  "run cfg (xs @ ys) s = run cfg xs s @ run cfg ys (last (s # run cfg xs s))"
  by (induction xs arbitrary: s) (auto simp add: Let_def)

lemma in_time_usage_count [simp]:
  "in_time cfg (v\<lparr>usage_count := c\<rparr>) r = in_time cfg v r"
  by (cases r) simp

lemma run_within_limit:
  assumes "objects s u = Some v" and "uuid v = u" and "u \<noteq> []" and "is_active v"
    and "\<forall>r\<in>set rs. presents cfg u r \<and> in_time cfg v r"
    and "usage_count v + int (length rs) \<le> max_usages_allowed v"
    and "i < length rs"
  shows "is_visitor (run cfg rs s ! i)
       \<and> objects (run cfg rs s ! i) u = Some (v\<lparr>usage_count := usage_count v + int i + 1\<rparr>)"
  using assms
proof (induction rs arbitrary: s v i)
  case Nil
  then show ?case by simp
next
  case (Cons r rs)
  obtain now query sess where r: "r = (now, query, sess)"
    by (cases r)
  let ?s' = "handle cfg now query sess s"
  let ?v' = "v\<lparr>usage_count := usage_count v + 1\<rparr>"
  have step: "is_visitor ?s' \<and> visitor ?s' = Some ?v' \<and> objects ?s' u = Some ?v'"
    using Cons.prems by (intro handle_within_limit) (simp_all add: r)
  show ?case
  proof (cases i)
    case 0
    with step show ?thesis by (simp add: r Let_def)
  next
    case (Suc j)
    have "is_visitor (run cfg rs ?s' ! j)
        \<and> objects (run cfg rs ?s' ! j) u = Some (?v'\<lparr>usage_count := usage_count ?v' + int j + 1\<rparr>)"
      using step Cons.prems Suc by (intro Cons.IH) simp_all
    then show ?thesis
      by (simp add: r Let_def Suc add.commute add.left_commute)
  qed
qed

lemma final_within_limit:
  assumes "objects s u = Some v" and "uuid v = u" and "u \<noteq> []" and "is_active v"
    and "\<forall>r\<in>set rs. presents cfg u r \<and> in_time cfg v r"
    and "usage_count v + int (length rs) \<le> max_usages_allowed v"
  shows "objects (last (s # run cfg rs s)) u
           = Some (v\<lparr>usage_count := usage_count v + int (length rs)\<rparr>)"
proof (cases "rs = []")
  case True
  with assms(1) show ?thesis by simp
next
  case False
  then have pos: "length rs - 1 < length rs" by simp
  have "run cfg rs s \<noteq> []"
    using False run_length [of cfg rs s] by (metis length_0_conv)
  then have "last (s # run cfg rs s) = run cfg rs s ! (length rs - 1)"
    by (simp add: last_conv_nth)
  moreover have "usage_count v + int (length rs - 1) + 1 = usage_count v + int (length rs)"
    using False by (simp add: of_nat_diff Suc_leI)
  ultimately show ?thesis
    using run_within_limit [OF assms pos] by simp
qed

lemma handle_valid_token_within_limit:
  assumes "query (VISITOR_QUERYSTRING_KEY cfg) = Some u" and "u \<noteq> []"
    and "objects s u = Some v" and "uuid v = u" and "is_valid cfg now v"
    and "usage_count v < max_usages_allowed v"
  shows "is_visitor (handle cfg now query sess s)
       \<and> visitor (handle cfg now query sess s) = Some (v\<lparr>usage_count := usage_count v + 1\<rparr>)
       \<and> objects (handle cfg now query sess s) u = Some (v\<lparr>usage_count := usage_count v + 1\<rparr>)
       \<and> session (handle cfg now query sess s) = sess(VISITOR_SESSION_KEY cfg \<mapsto> u)"
  using assms(4,6)
  by (simp add: handle_valid_token [where query = query and cfg = cfg, OF assms(1,2,3,4,5)]
      count_within_limit)

lemma handle_stashed_within_limit:
  assumes "falsy (query (VISITOR_QUERYSTRING_KEY cfg))"
    and "sess (VISITOR_SESSION_KEY cfg) = Some u" and "u \<noteq> []"
    and "objects s u = Some v" and "uuid v = u" and "is_active v"
    and "usage_count v < max_usages_allowed v"
  shows "is_visitor (handle cfg now query sess s)
       \<and> visitor (handle cfg now query sess s) = Some (v\<lparr>usage_count := usage_count v + 1\<rparr>)
       \<and> objects (handle cfg now query sess s) u = Some (v\<lparr>usage_count := usage_count v + 1\<rparr>)
       \<and> session (handle cfg now query sess s) = sess"
  using assms(5,7)
  by (simp add: handle_stashed_active
        [where query = query and sess = sess and cfg = cfg, OF assms(1,2,3,4,6)]
      count_within_limit)

text \<open>Three requests in a row: two with the token, the third with the session of the first.\<close>

lemma three_requests:
  assumes "u \<noteq> []" and "uuid v = u" and "objects s u = Some v"
    and "query (VISITOR_QUERYSTRING_KEY cfg) = Some u"
    and "falsy (query0 (VISITOR_QUERYSTRING_KEY cfg))"
    and "is_valid cfg t1 v" and "is_valid cfg t2 v"
    and "usage_count v + 3 \<le> max_usages_allowed v"
  shows "is_visitor (handle cfg t1 query sess1 s)
       \<and> session (handle cfg t1 query sess1 s) (VISITOR_SESSION_KEY cfg) = Some u
       \<and> is_visitor (handle cfg t2 query sess2 (handle cfg t1 query sess1 s))
       \<and> is_visitor (handle cfg t3 query0 (session (handle cfg t1 query sess1 s))
            (handle cfg t2 query sess2 (handle cfg t1 query sess1 s)))
       \<and> visitor (handle cfg t3 query0 (session (handle cfg t1 query sess1 s))
            (handle cfg t2 query sess2 (handle cfg t1 query sess1 s)))
           = Some (v\<lparr>usage_count := usage_count v + 3\<rparr>)
       \<and> objects (handle cfg t3 query0 (session (handle cfg t1 query sess1 s))
            (handle cfg t2 query sess2 (handle cfg t1 query sess1 s))) u
           = Some (v\<lparr>usage_count := usage_count v + 3\<rparr>)"
proof -
  define s1 where "s1 = handle cfg t1 query sess1 s"
  define s2 where "s2 = handle cfg t2 query sess2 s1"
  define s3 where "s3 = handle cfg t3 query0 (session s1) s2"
  let ?v1 = "v\<lparr>usage_count := usage_count v + 1\<rparr>"
  let ?v2 = "v\<lparr>usage_count := usage_count v + 2\<rparr>"
  let ?v3 = "v\<lparr>usage_count := usage_count v + 3\<rparr>"
  have one: "is_visitor s1 \<and> visitor s1 = Some ?v1 \<and> objects s1 u = Some ?v1
      \<and> session s1 = sess1(VISITOR_SESSION_KEY cfg \<mapsto> u)"
    unfolding s1_def using assms
    by (intro handle_valid_token_within_limit) simp_all
  have valid2: "is_valid cfg t2 ?v1"
    using assms(7) by (simp add: is_valid_def)
  have two: "is_visitor s2 \<and> objects s2 u = Some ?v2"
  proof -
    have "is_visitor s2 \<and> visitor s2 = Some (?v1\<lparr>usage_count := usage_count ?v1 + 1\<rparr>)
        \<and> objects s2 u = Some (?v1\<lparr>usage_count := usage_count ?v1 + 1\<rparr>)
        \<and> session s2 = sess2(VISITOR_SESSION_KEY cfg \<mapsto> u)"
      unfolding s2_def using assms one valid2
      by (intro handle_valid_token_within_limit) simp_all
    then show ?thesis by simp
  qed
  have three: "is_visitor s3 \<and> visitor s3 = Some ?v3 \<and> objects s3 u = Some ?v3"
  proof -
    have "is_active ?v2" using assms(6) by (simp add: is_valid_def)
    then have "is_visitor s3 \<and> visitor s3 = Some (?v2\<lparr>usage_count := usage_count ?v2 + 1\<rparr>)
        \<and> objects s3 u = Some (?v2\<lparr>usage_count := usage_count ?v2 + 1\<rparr>)
        \<and> session s3 = session s1"
      unfolding s3_def using assms one two
      by (intro handle_stashed_within_limit) simp_all
    then show ?thesis by simp
  qed
  from one two three show ?thesis
    unfolding s3_def s2_def s1_def by simp
qed

section \<open>The claims\<close>

text \<open>
  C7. For every newly created, active, non-expired visitor, a request presenting that
  visitor's identifier as the token parameter results in the principal's visitor flag
  being true and the request-scoped visitor context equal to that visitor entity.

  The theorem holds for every stored visitor that is active and within the expiry
  window, new or not. First conjunct: the Token Extractor hands the request on with the
  flag set and the context equal to the stored row. Second conjunct: through the whole
  chain, for a visitor with a usage left (a new one has all of them), the view sees the
  flag set and the context equal to the stored row, whose count went up by one.
\<close>

theorem C7_valid_token_identifies_visitor:
  assumes "GET s (VISITOR_QUERYSTRING_KEY cfg) = Some u" and "u \<noteq> []"
    and "objects s u = Some v" and "uuid v = u"
    and "is_active v" and "now - created_at v \<le> VISITOR_TOKEN_EXPIRY cfg"
  shows "VisitorRequestMiddleware cfg now get_response s =
           get_response (s\<lparr>visitor := Some v, is_visitor := True\<rparr>)
       \<and> (usage_count v < max_usages_allowed v \<longrightarrow>
            pipeline cfg now view s =
              view (s\<lparr>session := (session s)(VISITOR_SESSION_KEY cfg \<mapsto> u),
                     visitor := Some (v\<lparr>usage_count := usage_count v + 1\<rparr>),
                     is_visitor := True,
                     objects := (objects s)(u \<mapsto> v\<lparr>usage_count := usage_count v + 1\<rparr>),
                     saved := saved s @ [v\<lparr>usage_count := usage_count v + 1\<rparr>]\<rparr>))"
proof -
  have valid: "is_valid cfg now v"
    using assms(5,6) by (simp add: is_valid_def)
  have stage: "VisitorRequestMiddleware cfg now get_response s =
      get_response (s\<lparr>visitor := Some v, is_visitor := True\<rparr>)"
    using assms(1,2,3) valid by (rule request_valid_token)
  have whole: "pipeline cfg now view s =
      view (s\<lparr>session := (session s)(VISITOR_SESSION_KEY cfg \<mapsto> u),
             visitor := Some (v\<lparr>usage_count := usage_count v + 1\<rparr>),
             is_visitor := True,
             objects := (objects s)(u \<mapsto> v\<lparr>usage_count := usage_count v + 1\<rparr>),
             saved := saved s @ [v\<lparr>usage_count := usage_count v + 1\<rparr>]\<rparr>)"
    if "usage_count v < max_usages_allowed v"
    using that assms(4)
    by (simp add: pipeline_valid_token [OF assms(1,2,3) valid assms(4)] count_within_limit)
      (rule state_cong; simp)
  from stage whole show ?thesis by blast
qed

theorem C7_witness:
  "is_visitor (VisitorRequestMiddleware default_settings 120 (\<lambda>r. r)
      (blank\<lparr>GET := [''vuid'' \<mapsto> ''f3d0''], objects := [''f3d0'' \<mapsto> fred]\<rparr>))
   \<and> visitor (VisitorRequestMiddleware default_settings 120 (\<lambda>r. r)
      (blank\<lparr>GET := [''vuid'' \<mapsto> ''f3d0''], objects := [''f3d0'' \<mapsto> fred]\<rparr>)) = Some fred
   \<and> is_visitor (pipeline default_settings 120 (\<lambda>r. r)
      (blank\<lparr>GET := [''vuid'' \<mapsto> ''f3d0''], objects := [''f3d0'' \<mapsto> fred]\<rparr>))
   \<and> visitor (pipeline default_settings 120 (\<lambda>r. r)
      (blank\<lparr>GET := [''vuid'' \<mapsto> ''f3d0''], objects := [''f3d0'' \<mapsto> fred]\<rparr>))
       = Some (fred\<lparr>usage_count := 1\<rparr>)"
  using C7_valid_token_identifies_visitor
    [of "blank\<lparr>GET := [''vuid'' \<mapsto> ''f3d0''], objects := [''f3d0'' \<mapsto> fred]\<rparr>"
        default_settings "''f3d0''" fred 120 "\<lambda>r. r" "\<lambda>r. r"]
  by (simp add: default_settings_def fred_def blank_def)

text \<open>
  C8. For every request whose token parameter is absent, and for every request whose
  token does not match any stored visitor identifier, the pipeline passes through
  silently (no error surfaced to the caller) leaving the principal's visitor flag false
  and the visitor context null.

  First conjunct: the Token Extractor returns what the rest of the chain returns on the
  request with the flag false and the context null; the table, the session and the list
  of writes are as they were. Second conjunct: when the session holds no identifier
  either, the whole chain hands exactly that request to the view.
\<close>

theorem C8_absent_or_unknown_token_passes_through:
  assumes "falsy (GET s (VISITOR_QUERYSTRING_KEY cfg))
           \<or> (\<exists>u. GET s (VISITOR_QUERYSTRING_KEY cfg) = Some u \<and> objects s u = None)"
  shows "VisitorRequestMiddleware cfg now get_response s =
           get_response (s\<lparr>visitor := None, is_visitor := False\<rparr>)
       \<and> (falsy (session s (VISITOR_SESSION_KEY cfg)) \<longrightarrow>
            pipeline cfg now view s = view (s\<lparr>visitor := None, is_visitor := False\<rparr>))"
proof -
  have stage: "VisitorRequestMiddleware cfg now get_response s =
      get_response (s\<lparr>visitor := None, is_visitor := False\<rparr>)"
    using assms by (auto simp add: request_no_token request_unknown_token)
  have whole: "pipeline cfg now view s = view (s\<lparr>visitor := None, is_visitor := False\<rparr>)"
    if "falsy (session s (VISITOR_SESSION_KEY cfg))"
    using that
    by (simp add: pipeline_no_token [OF assms] session_nothing_stashed count_no_visitor)
  from stage whole show ?thesis by blast
qed

theorem C8_witness:
  "\<not> is_visitor (VisitorRequestMiddleware default_settings 120 (\<lambda>r. r)
      (blank\<lparr>GET := [''vuid'' \<mapsto> ''0bad''], objects := [''f3d0'' \<mapsto> fred]\<rparr>))
   \<and> visitor (VisitorRequestMiddleware default_settings 120 (\<lambda>r. r)
      (blank\<lparr>GET := [''vuid'' \<mapsto> ''0bad''], objects := [''f3d0'' \<mapsto> fred]\<rparr>)) = None
   \<and> pipeline default_settings 120 (\<lambda>r. r)
      (blank\<lparr>GET := [''vuid'' \<mapsto> ''0bad''], objects := [''f3d0'' \<mapsto> fred]\<rparr>)
       = blank\<lparr>GET := [''vuid'' \<mapsto> ''0bad''], objects := [''f3d0'' \<mapsto> fred]\<rparr>"
  using C8_absent_or_unknown_token_passes_through
    [of "blank\<lparr>GET := [''vuid'' \<mapsto> ''0bad''], objects := [''f3d0'' \<mapsto> fred]\<rparr>"
        default_settings 120 "\<lambda>r. r" "\<lambda>r. r"]
  by (simp add: default_settings_def blank_def)

text \<open>
  C9. For every request with no token parameter and no visitor identifier in the
  session, the pipeline performs no persistence write (no save, no deactivation, no
  increment) and returns the underlying response completely unmodified except that the
  visitor context is null and the principal's visitor flag is false.

  The chain returns what the view returns on the incoming request with the context
  null and the flag false: the table and the list of writes reach the view as they came
  in, and so does the session.
\<close>

theorem C9_no_token_no_session_writes_nothing:
  assumes "falsy (GET s (VISITOR_QUERYSTRING_KEY cfg))"
    and "falsy (session s (VISITOR_SESSION_KEY cfg))"
  shows "pipeline cfg now view s = view (s\<lparr>visitor := None, is_visitor := False\<rparr>)
       \<and> saved (pipeline cfg now (\<lambda>r. r) s) = saved s
       \<and> objects (pipeline cfg now (\<lambda>r. r) s) = objects s
       \<and> session (pipeline cfg now (\<lambda>r. r) s) = session s"
proof -
  have "pipeline cfg now view s = view (s\<lparr>visitor := None, is_visitor := False\<rparr>)"
    using assms by (simp add: pipeline_no_token session_nothing_stashed count_no_visitor)
  moreover
  have "pipeline cfg now (\<lambda>r. r) s = s\<lparr>visitor := None, is_visitor := False\<rparr>"
    using assms by (simp add: pipeline_no_token session_nothing_stashed count_no_visitor)
  ultimately show ?thesis by simp
qed

theorem C9_witness:
  "pipeline default_settings 120 (\<lambda>r. r) (blank\<lparr>objects := [''f3d0'' \<mapsto> fred]\<rparr>)
     = blank\<lparr>objects := [''f3d0'' \<mapsto> fred]\<rparr>
   \<and> saved (pipeline default_settings 120 (\<lambda>r. r) (blank\<lparr>objects := [''f3d0'' \<mapsto> fred]\<rparr>)) = []"
  using C9_no_token_no_session_writes_nothing
    [of "blank\<lparr>objects := [''f3d0'' \<mapsto> fred]\<rparr>" default_settings 120 "\<lambda>r. r"]
  by (simp add: default_settings_def blank_def)

text \<open>
  C10. When the Usage Limiter trips the limit on a request, it clears only the
  principal's visitor flag: the request-scoped visitor context still references the
  (now-deactivated) visitor entity for the remainder of that request, so the flag and
  the context reference diverge: downstream code in the same request sees is_visitor
  false but a non-null visitor object.
\<close>

theorem C10_tripped_limit_keeps_context:
  assumes "visitor s = Some v" and "max_usages_allowed v < usage_count v + 1"
  shows "VisitorCountMiddleware get_response s =
           get_response
             (s\<lparr>visitor := Some (v\<lparr>usage_count := usage_count v + 1, is_active := False\<rparr>),
                is_visitor := False,
                objects := (objects s)
                  (uuid v \<mapsto> v\<lparr>usage_count := usage_count v + 1, is_active := False\<rparr>),
                saved := saved s @ [v\<lparr>usage_count := usage_count v + 1\<rparr>,
                  v\<lparr>usage_count := usage_count v + 1, is_active := False\<rparr>]\<rparr>)
       \<and> \<not> is_visitor (VisitorCountMiddleware (\<lambda>r. r) s)
       \<and> visitor (VisitorCountMiddleware (\<lambda>r. r) s) \<noteq> None
       \<and> visitor (VisitorCountMiddleware (\<lambda>r. r) s)
           = objects (VisitorCountMiddleware (\<lambda>r. r) s) (uuid v)"
proof -
  note trip = count_over_limit [OF assms]
  show ?thesis
    by (simp add: trip [of "\<lambda>r. r"]) (rule trip)
qed

theorem C10_witness:
  "\<not> is_visitor (VisitorCountMiddleware (\<lambda>r. r)
       (blank\<lparr>visitor := Some (fred\<lparr>usage_count := 10\<rparr>), is_visitor := True,
              objects := [''f3d0'' \<mapsto> fred\<lparr>usage_count := 10\<rparr>]\<rparr>))
   \<and> visitor (VisitorCountMiddleware (\<lambda>r. r)
       (blank\<lparr>visitor := Some (fred\<lparr>usage_count := 10\<rparr>), is_visitor := True,
              objects := [''f3d0'' \<mapsto> fred\<lparr>usage_count := 10\<rparr>]\<rparr>))
       = Some (fred\<lparr>usage_count := 11, is_active := False\<rparr>)"
  using C10_tripped_limit_keeps_context
    [of "blank\<lparr>visitor := Some (fred\<lparr>usage_count := 10\<rparr>), is_visitor := True,
              objects := [''f3d0'' \<mapsto> fred\<lparr>usage_count := 10\<rparr>]\<rparr>"
        "fred\<lparr>usage_count := 10\<rparr>" "\<lambda>r. r"]
  by (simp add: fred_def blank_def)

text \<open>
  C5. Self-healing of stale sessions: for every request whose session holds an
  identifier that resolves to no active visitor (deleted or deactivated), the Session
  Synchronizer clears that identifier from the session and the request completes as a
  non-visitor (flag false, context null); a subsequent request with the same
  now-cleared session and no token also yields non-visitor status.

  First conjunct: the Session Synchronizer, entered without a freshly identified
  visitor, hands the request on with the key removed from the session. Second: a
  request without a token goes through the whole chain to the view with the key removed,
  the flag false and the context null. Third: any later request \<open>s2\<close> that carries that
  cleared session and no token reaches the view as a non-visitor, whatever the table
  holds by then.
\<close>

theorem C5_stale_session_identifier_is_cleared:
  assumes "session s (VISITOR_SESSION_KEY cfg) = Some x" and "x \<noteq> []"
    and "objects s x = None \<or> (\<exists>v. objects s x = Some v \<and> \<not> is_active v)"
  shows "(visitor s = None \<longrightarrow>
            VisitorSessionMiddleware cfg get_response s =
              get_response (s\<lparr>session := (session s)(VISITOR_SESSION_KEY cfg := None)\<rparr>))
       \<and> (falsy (GET s (VISITOR_QUERYSTRING_KEY cfg)) \<longrightarrow>
            pipeline cfg now view s =
              view (s\<lparr>session := (session s)(VISITOR_SESSION_KEY cfg := None),
                     visitor := None, is_visitor := False\<rparr>))
       \<and> (falsy (GET s2 (VISITOR_QUERYSTRING_KEY cfg))
            \<and> session s2 = (session s)(VISITOR_SESSION_KEY cfg := None) \<longrightarrow>
            pipeline cfg now2 view s2 = view (s2\<lparr>visitor := None, is_visitor := False\<rparr>))"
proof -
  have stage: "VisitorSessionMiddleware cfg get_response s =
      get_response (s\<lparr>session := (session s)(VISITOR_SESSION_KEY cfg := None)\<rparr>)"
    if "visitor s = None"
    using that assms by (rule session_stale_visitor)
  have whole: "pipeline cfg now view s =
      view (s\<lparr>session := (session s)(VISITOR_SESSION_KEY cfg := None),
             visitor := None, is_visitor := False\<rparr>)"
    if "falsy (GET s (VISITOR_QUERYSTRING_KEY cfg))"
  proof -
    have "pipeline cfg now view s =
        VisitorSessionMiddleware cfg (VisitorCountMiddleware view)
          (s\<lparr>visitor := None, is_visitor := False\<rparr>)"
      using that by (simp add: pipeline_no_token)
    also have "\<dots> = VisitorCountMiddleware view
        (s\<lparr>visitor := None, is_visitor := False,
           session := (session s)(VISITOR_SESSION_KEY cfg := None)\<rparr>)"
      using assms by (subst session_stale_visitor [where u = x]) simp_all
    also have "\<dots> = view (s\<lparr>session := (session s)(VISITOR_SESSION_KEY cfg := None),
        visitor := None, is_visitor := False\<rparr>)"
      by (simp add: count_no_visitor) (rule state_cong; simp)
    finally show ?thesis .
  qed
  have later: "pipeline cfg now2 view s2 = view (s2\<lparr>visitor := None, is_visitor := False\<rparr>)"
    if "falsy (GET s2 (VISITOR_QUERYSTRING_KEY cfg))"
      and "session s2 = (session s)(VISITOR_SESSION_KEY cfg := None)"
    using that
    by (simp add: pipeline_no_token session_nothing_stashed count_no_visitor)
  from stage whole later show ?thesis by blast
qed

theorem C5_witness:
  "pipeline default_settings 120 (\<lambda>r. r)
      (blank\<lparr>session := [''visitor:session'' \<mapsto> ''f3d0''],
             objects := [''f3d0'' \<mapsto> fred\<lparr>is_active := False\<rparr>]\<rparr>)
     = blank\<lparr>objects := [''f3d0'' \<mapsto> fred\<lparr>is_active := False\<rparr>]\<rparr>
   \<and> pipeline default_settings 180 (\<lambda>r. r)
      (blank\<lparr>objects := [''f3d0'' \<mapsto> fred\<lparr>is_active := False\<rparr>]\<rparr>)
     = blank\<lparr>objects := [''f3d0'' \<mapsto> fred\<lparr>is_active := False\<rparr>]\<rparr>"
  using C5_stale_session_identifier_is_cleared
    [of "blank\<lparr>session := [''visitor:session'' \<mapsto> ''f3d0''],
             objects := [''f3d0'' \<mapsto> fred\<lparr>is_active := False\<rparr>]\<rparr>"
        default_settings "''f3d0''" "\<lambda>r. r" 120 "\<lambda>r. r"
        "blank\<lparr>objects := [''f3d0'' \<mapsto> fred\<lparr>is_active := False\<rparr>]\<rparr>" 180]
  by (simp add: default_settings_def blank_def fred_def)

text \<open>
  C2. For every request presenting a token that resolves to an existing visitor which
  fails the validity predicate (inactive, or expired relative to created_at plus the
  token time-to-live), the pipeline marks that visitor permanently deactivated in
  storage (is_active becomes false) and passes the request through with visitor context
  cleared and the principal's visitor flag false, raising no error to the caller; a
  subsequent presentation of the same token yields flag false regardless of clock
  state.

  The deactivating write is the one of \<open>validate\<close>, modelled from the spec. First
  conjunct: the Token Extractor returns what the rest of the chain returns on the request
  with the context null, the flag false and the stored row inactive. Second: when the
  session holds nothing, or this same identifier, the view sees a non-visitor and the
  row is stored inactive. Third: any later request \<open>s2\<close> presenting the token against
  that table, at any time \<open>now2\<close>, is handed on with the flag false and the context null.
\<close>

theorem C2_invalid_token_deactivates_and_passes_through:
  assumes "GET s (VISITOR_QUERYSTRING_KEY cfg) = Some u" and "u \<noteq> []"
    and "objects s u = Some v" and "uuid v = u"
    and "\<not> is_active v \<or> VISITOR_TOKEN_EXPIRY cfg < now - created_at v"
  shows "VisitorRequestMiddleware cfg now get_response s =
           get_response
             (s\<lparr>visitor := None, is_visitor := False,
                objects := (objects s)(u \<mapsto> v\<lparr>is_active := False\<rparr>),
                saved := saved s @ [v\<lparr>is_active := False\<rparr>]\<rparr>)
       \<and> (falsy (session s (VISITOR_SESSION_KEY cfg))
            \<or> session s (VISITOR_SESSION_KEY cfg) = Some u \<longrightarrow>
            \<not> is_visitor (pipeline cfg now (\<lambda>r. r) s)
            \<and> visitor (pipeline cfg now (\<lambda>r. r) s) = None
            \<and> objects (pipeline cfg now (\<lambda>r. r) s) u = Some (v\<lparr>is_active := False\<rparr>))
       \<and> (GET s2 (VISITOR_QUERYSTRING_KEY cfg) = Some u
            \<and> objects s2 = (objects s)(u \<mapsto> v\<lparr>is_active := False\<rparr>) \<longrightarrow>
            VisitorRequestMiddleware cfg now2 get_response s2 =
              get_response
                (s2\<lparr>visitor := None, is_visitor := False,
                    saved := saved s2 @ [v\<lparr>is_active := False\<rparr>]\<rparr>))"
proof -
  have invalid: "\<not> is_valid cfg now v"
    using assms(5) by (auto simp add: is_valid_def)
  have stage: "VisitorRequestMiddleware cfg now get_response s =
      get_response
        (s\<lparr>visitor := None, is_visitor := False,
           objects := (objects s)(u \<mapsto> v\<lparr>is_active := False\<rparr>),
           saved := saved s @ [v\<lparr>is_active := False\<rparr>]\<rparr>)"
    using assms(4)
    by (simp add: request_invalid_token [OF assms(1,2,3) invalid] deactivate_def save_def)
  have whole: "\<not> is_visitor (pipeline cfg now (\<lambda>r. r) s)
      \<and> visitor (pipeline cfg now (\<lambda>r. r) s) = None
      \<and> objects (pipeline cfg now (\<lambda>r. r) s) u = Some (v\<lparr>is_active := False\<rparr>)"
    if "falsy (session s (VISITOR_SESSION_KEY cfg))
        \<or> session s (VISITOR_SESSION_KEY cfg) = Some u"
    using that assms(2,4)
    by (auto simp add: pipeline_invalid_token [OF assms(1,2,3) invalid] deactivate_def save_def
        VisitorSessionMiddleware_def VisitorCountMiddleware_def get_visitor_uuid_def
        objects_get_active_def clear_visitor_uuid_def)
  have later: "VisitorRequestMiddleware cfg now2 get_response s2 =
      get_response
        (s2\<lparr>visitor := None, is_visitor := False,
            saved := saved s2 @ [v\<lparr>is_active := False\<rparr>]\<rparr>)"
    if "GET s2 (VISITOR_QUERYSTRING_KEY cfg) = Some u"
      and "objects s2 = (objects s)(u \<mapsto> v\<lparr>is_active := False\<rparr>)"
  proof -
    have row: "objects s2 u = Some (v\<lparr>is_active := False\<rparr>)"
      using that(2) by simp
    have gone: "\<not> is_valid cfg now2 (v\<lparr>is_active := False\<rparr>)"
      by (simp add: is_valid_def)
    show ?thesis
      using assms(4) that(2)
      by (simp add: request_invalid_token [OF that(1) assms(2) row gone] deactivate_def save_def)
        (rule state_cong; simp)
  qed
  from stage whole later show ?thesis by blast
qed

theorem C2_witness:
  "VISITOR_TOKEN_EXPIRY default_settings < 301 - created_at fred
   \<and> \<not> is_visitor (pipeline default_settings 301 (\<lambda>r. r)
      (blank\<lparr>GET := [''vuid'' \<mapsto> ''f3d0''], objects := [''f3d0'' \<mapsto> fred]\<rparr>))
   \<and> objects (pipeline default_settings 301 (\<lambda>r. r)
      (blank\<lparr>GET := [''vuid'' \<mapsto> ''f3d0''], objects := [''f3d0'' \<mapsto> fred]\<rparr>)) ''f3d0''
       = Some (fred\<lparr>is_active := False\<rparr>)
   \<and> \<not> is_visitor (VisitorRequestMiddleware default_settings 0 (\<lambda>r. r)
      (blank\<lparr>GET := [''vuid'' \<mapsto> ''f3d0''],
             objects := [''f3d0'' \<mapsto> fred\<lparr>is_active := False\<rparr>]\<rparr>))"
  using C2_invalid_token_deactivates_and_passes_through
    [of "blank\<lparr>GET := [''vuid'' \<mapsto> ''f3d0''], objects := [''f3d0'' \<mapsto> fred]\<rparr>"
        default_settings "''f3d0''" fred 301 "\<lambda>r. r"
        "blank\<lparr>GET := [''vuid'' \<mapsto> ''f3d0''],
             objects := [''f3d0'' \<mapsto> fred\<lparr>is_active := False\<rparr>]\<rparr>" 0]
  by (simp add: default_settings_def blank_def fred_def)

text \<open>
  C4, as stated: the validity predicate (is_active true AND current time minus
  created_at within the configured token expiry window) is re-evaluated on every request
  on every path that grants visitor status, so no request path grants the visitor flag
  to a visitor that is inactive or whose token has expired at that moment.

  This fails on the session path. The Session Synchronizer looks the stashed identifier
  up with \<^verbatim>\<open>is_active=True\<close> only: 1000 seconds after its creation, with a window of
  300, a visitor whose identifier is in the session is still granted the flag.
\<close>

theorem C4_counterexample:
  "is_visitor (pipeline default_settings 1000 (\<lambda>r. r)
      (blank\<lparr>session := [''visitor:session'' \<mapsto> ''f3d0''], objects := [''f3d0'' \<mapsto> fred]\<rparr>))
   \<and> visitor (pipeline default_settings 1000 (\<lambda>r. r)
      (blank\<lparr>session := [''visitor:session'' \<mapsto> ''f3d0''], objects := [''f3d0'' \<mapsto> fred]\<rparr>))
       = Some (fred\<lparr>usage_count := 1\<rparr>)
   \<and> \<not> is_valid default_settings 1000 fred
   \<and> \<not> is_valid default_settings 1000 (fred\<lparr>usage_count := 1\<rparr>)"
  by (simp add: pipeline_def VisitorRequestMiddleware_def VisitorSessionMiddleware_def
      VisitorCountMiddleware_def objects_get_active_def save_def get_visitor_uuid_def
      is_valid_def Let_def default_settings_def blank_def fred_def)

text \<open>
  C4, amended: the Token Extractor evaluates the whole validity predicate on every
  request that presents a token, and sets the visitor flag only for a visitor that is
  valid at that moment; the Session Synchronizer re-checks is_active, not the expiry,
  on every request it rehydrates from the session. So no request path grants the
  visitor flag to a visitor that is inactive.

  First conjunct: a flag the whole chain leaves set comes with a context that is
  active and is the stored row. Second: a flag the Token Extractor sets comes with the
  row the token names, active and within the window at the time of the request.
\<close>

theorem C4_flag_only_for_active_visitors:
  "(is_visitor (pipeline cfg now (\<lambda>r. r) s) \<longrightarrow>
      (\<exists>v. visitor (pipeline cfg now (\<lambda>r. r) s) = Some v \<and> is_active v
          \<and> objects (pipeline cfg now (\<lambda>r. r) s) (uuid v) = Some v))
   \<and> (is_visitor (VisitorRequestMiddleware cfg now (\<lambda>r. r) s) \<longrightarrow>
      (\<exists>u v. GET s (VISITOR_QUERYSTRING_KEY cfg) = Some u \<and> objects s u = Some v
          \<and> visitor (VisitorRequestMiddleware cfg now (\<lambda>r. r) s) = Some v
          \<and> is_active v \<and> now - created_at v \<le> VISITOR_TOKEN_EXPIRY cfg))"
  using pipeline_grant_active [of cfg now s] request_grant_valid [of cfg now s]
  by blast

theorem C4_witness:
  "is_visitor (pipeline default_settings 120 (\<lambda>r. r)
      (blank\<lparr>GET := [''vuid'' \<mapsto> ''f3d0''], objects := [''f3d0'' \<mapsto> fred]\<rparr>))
   \<and> (\<exists>v. visitor (pipeline default_settings 120 (\<lambda>r. r)
      (blank\<lparr>GET := [''vuid'' \<mapsto> ''f3d0''], objects := [''f3d0'' \<mapsto> fred]\<rparr>)) = Some v
        \<and> is_active v)"
proof -
  have granted: "is_visitor (pipeline default_settings 120 (\<lambda>r. r)
      (blank\<lparr>GET := [''vuid'' \<mapsto> ''f3d0''], objects := [''f3d0'' \<mapsto> fred]\<rparr>))"
    by (simp add: pipeline_def VisitorRequestMiddleware_def VisitorSessionMiddleware_def
        VisitorCountMiddleware_def get_and_validate_def objects_get_def validate_def
        stash_visitor_uuid_def save_def is_valid_def Let_def default_settings_def blank_def
        fred_def)
  with C4_flag_only_for_active_visitors
    [of default_settings 120
        "blank\<lparr>GET := [''vuid'' \<mapsto> ''f3d0''], objects := [''f3d0'' \<mapsto> fred]\<rparr>"]
  show ?thesis by blast
qed

text \<open>
  C6. Deactivation is terminal: for every visitor with is_active false, no pipeline
  operation (token extraction, session synchronization, usage limiting) ever sets
  is_active back to true or grants that visitor the visitor flag on any future request,
  regardless of usage count or expiry state.

  Whatever requests follow, at whatever times, with whatever tokens and sessions: after
  each of them the row of a deactivated visitor is stored exactly as it was, and the
  request did not have that visitor as its context, so the flag was not granted to it.
  The table is one that holds each row under the row's own identifier.
\<close>

theorem C6_deactivation_is_terminal:
  assumes "keyed_by_uuid (objects s)" and "objects s u = Some w" and "\<not> is_active w"
  shows "\<forall>s'\<in>set (run cfg rs s).
           objects s' u = Some w
         \<and> \<not> (is_visitor s' \<and> (\<exists>x. visitor s' = Some x \<and> uuid x = u))"
  using run_keeps_revoked [OF assms] by blast

theorem C6_witness:
  "objects
     (run default_settings
        [(0, [''vuid'' \<mapsto> ''f3d0''], Map.empty),
         (10, Map.empty, [''visitor:session'' \<mapsto> ''f3d0''])]
        (blank\<lparr>objects := [''f3d0'' \<mapsto> fred\<lparr>is_active := False\<rparr>]\<rparr>) ! 1) ''f3d0''
     = Some (fred\<lparr>is_active := False\<rparr>)"
proof -
  let ?s = "blank\<lparr>objects := [''f3d0'' \<mapsto> fred\<lparr>is_active := False\<rparr>]\<rparr>"
  let ?rs = "[(0, [''vuid'' \<mapsto> ''f3d0''], Map.empty),
              (10, Map.empty, [''visitor:session'' \<mapsto> ''f3d0''])]"
  have keyed: "keyed_by_uuid (objects ?s)"
    by (simp add: keyed_by_uuid_def blank_def fred_def)
  have row: "objects ?s ''f3d0'' = Some (fred\<lparr>is_active := False\<rparr>)"
    by (simp add: blank_def)
  have off: "\<not> is_active (fred\<lparr>is_active := False\<rparr>)"
    by simp
  have "run default_settings ?rs ?s ! 1 \<in> set (run default_settings ?rs ?s)"
    by (rule nth_mem) (simp del: run.simps)
  with C6_deactivation_is_terminal [OF keyed row off, of default_settings ?rs]
  show ?thesis by blast
qed

text \<open>
  C1. For a visitor created with usage_count=0 and max_usages_allowed=10, the Usage
  Limiter leaves the visitor flag true on each of the first 10 requests (usage_count
  reaching 10); on the 11th request usage_count becomes 11, is_active is set to false and
  persisted, and that 11th request's visitor flag is set false before the stage
  completes; any 12th request (via token or session) yields non-visitor status and
  is_active stays false.

  The first ten requests are \<open>xs\<close>, the eleventh is \<open>a\<close>, the twelfth \<open>b\<close>. Each presents the
  visitor's identifier, by token or by session; those of the first eleven that carry the
  token arrive within the expiry window, the twelfth at any time. The states are the
  ones the view sees, request after request.
\<close>

theorem C1_usage_limit_scenario:
  assumes "objects s u = Some v" and "uuid v = u" and "u \<noteq> []"
    and "is_active v" and "usage_count v = 0" and "max_usages_allowed v = 10"
    and "length xs = 10"
    and "\<forall>r\<in>set (xs @ [a]). presents cfg u r \<and> in_time cfg v r"
    and "presents cfg u b"
  shows "(\<forall>i<10. is_visitor (run cfg (xs @ [a, b]) s ! i)
            \<and> objects (run cfg (xs @ [a, b]) s ! i) u = Some (v\<lparr>usage_count := int i + 1\<rparr>))
       \<and> \<not> is_visitor (run cfg (xs @ [a, b]) s ! 10)
       \<and> visitor (run cfg (xs @ [a, b]) s ! 10)
           = Some (v\<lparr>usage_count := 11, is_active := False\<rparr>)
       \<and> objects (run cfg (xs @ [a, b]) s ! 10) u
           = Some (v\<lparr>usage_count := 11, is_active := False\<rparr>)
       \<and> last (saved (run cfg (xs @ [a, b]) s ! 10))
           = v\<lparr>usage_count := 11, is_active := False\<rparr>
       \<and> \<not> is_visitor (run cfg (xs @ [a, b]) s ! 11)
       \<and> visitor (run cfg (xs @ [a, b]) s ! 11) = None
       \<and> objects (run cfg (xs @ [a, b]) s ! 11) u
           = Some (v\<lparr>usage_count := 11, is_active := False\<rparr>)"
proof -
  obtain na qa sa where a: "a = (na, qa, sa)" by (cases a)
  obtain nb qb sb where b: "b = (nb, qb, sb)" by (cases b)
  define s10 where "s10 = last (s # run cfg xs s)"
  define s11 where "s11 = handle cfg na qa sa s10"
  define s12 where "s12 = handle cfg nb qb sb s11"
  let ?v10 = "v\<lparr>usage_count := 10\<rparr>"
  let ?v11 = "v\<lparr>usage_count := 11, is_active := False\<rparr>"
  have runs: "run cfg (xs @ [a, b]) s = run cfg xs s @ [s11, s12]"
    by (simp add: run_append a b s10_def s11_def s12_def Let_def)
  have ten: "\<forall>r\<in>set xs. presents cfg u r \<and> in_time cfg v r"
    using assms(8) by simp
  have room: "usage_count v + int (length xs) \<le> max_usages_allowed v"
    using assms(5,6,7) by simp
  have first: "is_visitor (run cfg (xs @ [a, b]) s ! i)
      \<and> objects (run cfg (xs @ [a, b]) s ! i) u = Some (v\<lparr>usage_count := int i + 1\<rparr>)"
    if "i < 10" for i
  proof -
    have "i < length xs" using that assms(7) by simp
    from run_within_limit [OF assms(1,2,3,4) ten room this]
    show ?thesis
      using that assms(5,7) by (simp add: runs nth_append)
  qed
  have row10: "objects s10 u = Some ?v10"
    using final_within_limit [OF assms(1,2,3,4) ten room] assms(5,7)
    by (simp add: s10_def)
  have eleventh: "\<not> is_visitor s11 \<and> visitor s11 = Some ?v11
      \<and> objects s11 u = Some ?v11 \<and> last (saved s11) = ?v11"
  proof -
    have "presents cfg u (na, qa, sa)" and "in_time cfg ?v10 (na, qa, sa)"
      using assms(8) by (simp_all add: a)
    from handle_over_limit [OF row10 _ assms(3) _ this]
    show ?thesis
      using assms(2,4,6) by (simp add: s11_def)
  qed
  have twelfth: "\<not> is_visitor s12 \<and> visitor s12 = None \<and> objects s12 u = Some ?v11"
  proof -
    have row11: "objects s11 u = Some ?v11" using eleventh by simp
    have "presents cfg u (nb, qb, sb)" using assms(9) by (simp add: b)
    from handle_revoked [OF row11 _ assms(3) _ this]
    show ?thesis
      using assms(2) by (simp add: s12_def)
  qed
  have at10: "run cfg (xs @ [a, b]) s ! 10 = s11"
    using assms(7) by (simp add: runs nth_append)
  have at11: "run cfg (xs @ [a, b]) s ! 11 = s12"
    using assms(7) by (simp add: runs nth_append)
  from first eleventh twelfth show ?thesis
    unfolding at10 at11 by blast
qed

theorem C1_witness:
  "is_visitor
     (run default_settings
        (((0, [''vuid'' \<mapsto> ''f3d0''], Map.empty)
           # replicate 9 (60, Map.empty, [''visitor:session'' \<mapsto> ''f3d0'']))
         @ [(200, Map.empty, [''visitor:session'' \<mapsto> ''f3d0'']),
            (5000, [''vuid'' \<mapsto> ''f3d0''], Map.empty)])
        (blank\<lparr>objects := [''f3d0'' \<mapsto> fred]\<rparr>) ! 9)
   \<and> \<not> is_visitor
     (run default_settings
        (((0, [''vuid'' \<mapsto> ''f3d0''], Map.empty)
           # replicate 9 (60, Map.empty, [''visitor:session'' \<mapsto> ''f3d0'']))
         @ [(200, Map.empty, [''visitor:session'' \<mapsto> ''f3d0'']),
            (5000, [''vuid'' \<mapsto> ''f3d0''], Map.empty)])
        (blank\<lparr>objects := [''f3d0'' \<mapsto> fred]\<rparr>) ! 10)
   \<and> objects
     (run default_settings
        (((0, [''vuid'' \<mapsto> ''f3d0''], Map.empty)
           # replicate 9 (60, Map.empty, [''visitor:session'' \<mapsto> ''f3d0'']))
         @ [(200, Map.empty, [''visitor:session'' \<mapsto> ''f3d0'']),
            (5000, [''vuid'' \<mapsto> ''f3d0''], Map.empty)])
        (blank\<lparr>objects := [''f3d0'' \<mapsto> fred]\<rparr>) ! 11) ''f3d0''
       = Some (fred\<lparr>usage_count := 11, is_active := False\<rparr>)"
proof -
  let ?s = "blank\<lparr>objects := [''f3d0'' \<mapsto> fred]\<rparr>"
  let ?xs = "(0, [''vuid'' \<mapsto> ''f3d0''], Map.empty)
               # replicate 9 (60, Map.empty, [''visitor:session'' \<mapsto> ''f3d0''])"
  let ?a = "(200, Map.empty, [''visitor:session'' \<mapsto> ''f3d0''])"
  let ?b = "(5000, [''vuid'' \<mapsto> ''f3d0''], Map.empty)"
  have h1: "objects ?s ''f3d0'' = Some fred" by (simp add: blank_def)
  have h2: "uuid fred = ''f3d0''" by (simp add: fred_def)
  have h3: "''f3d0'' \<noteq> []" by simp
  have h4: "is_active fred" by (simp add: fred_def)
  have h5: "usage_count fred = 0" by (simp add: fred_def)
  have h6: "max_usages_allowed fred = 10" by (simp add: fred_def)
  have h7: "length ?xs = 10" by simp
  have h8: "\<forall>r\<in>set (?xs @ [?a]).
      presents default_settings ''f3d0'' r \<and> in_time default_settings fred r"
    by (simp add: default_settings_def fred_def)
  have h9: "presents default_settings ''f3d0'' ?b"
    by (simp add: default_settings_def)
  from C1_usage_limit_scenario [OF h1 h2 h3 h4 h5 h6 h7 h8 h9]
  show ?thesis by simp
qed

text \<open>
  C3. Round-trip of the identifier through the session: presenting a valid token in two
  independent requests yields visitor flag true on each; after the first such request
  the session holds the visitor's identifier under the fixed session key, such that a
  third request carrying NO token but the same session also yields visitor flag true
  with context equal to that visitor; re-stashing the same identifier is idempotent.

  First conjunct: whenever a request presents the token of a stored, valid visitor, the
  Token Extractor and the Session Synchronizer hand it on with the flag set, the context
  equal to the stored row and the identifier in the session under the configured key.
  Second: whenever a request without a token carries that identifier in its session and
  the row \<open>v3\<close> stored under it is active, they hand it on with the flag set and the
  context equal to \<open>v3\<close>. Third and fourth: stashing twice is stashing once, for the
  helper and for the stage. Fifth: three requests through the whole chain, for a visitor
  with three usages left (a new one has ten): two with the token, in any session, then
  one without a token in the session the first request left, at any time \<open>t3\<close>; the view
  sees the flag set each time, the session holds the identifier after the first, and the
  context of the third is the stored row.
\<close>

theorem C3_identifier_round_trip_through_session:
  assumes "u \<noteq> []" and "uuid v = u"
  shows "(GET s (VISITOR_QUERYSTRING_KEY cfg) = Some u \<and> objects s u = Some v
            \<and> is_valid cfg now v \<longrightarrow>
          VisitorRequestMiddleware cfg now (VisitorSessionMiddleware cfg get_response) s =
            get_response
              (s\<lparr>session := (session s)(VISITOR_SESSION_KEY cfg \<mapsto> u),
                 visitor := Some v, is_visitor := True\<rparr>))
       \<and> (falsy (GET s3 (VISITOR_QUERYSTRING_KEY cfg))
            \<and> session s3 (VISITOR_SESSION_KEY cfg) = Some u
            \<and> objects s3 u = Some v3 \<and> is_active v3 \<longrightarrow>
          VisitorRequestMiddleware cfg now3 (VisitorSessionMiddleware cfg get_response) s3 =
            get_response (s3\<lparr>visitor := Some v3, is_visitor := True\<rparr>))
       \<and> stash_visitor_uuid cfg (stash_visitor_uuid cfg s) = stash_visitor_uuid cfg s
       \<and> (visitor s \<noteq> None \<longrightarrow>
          VisitorSessionMiddleware cfg (\<lambda>r. r) (VisitorSessionMiddleware cfg (\<lambda>r. r) s) =
            VisitorSessionMiddleware cfg (\<lambda>r. r) s)
       \<and> (objects s u = Some v \<and> query (VISITOR_QUERYSTRING_KEY cfg) = Some u
            \<and> falsy (query0 (VISITOR_QUERYSTRING_KEY cfg))
            \<and> is_valid cfg t1 v \<and> is_valid cfg t2 v
            \<and> usage_count v + 3 \<le> max_usages_allowed v \<longrightarrow>
          is_visitor (handle cfg t1 query sess1 s)
          \<and> session (handle cfg t1 query sess1 s) (VISITOR_SESSION_KEY cfg) = Some u
          \<and> is_visitor (handle cfg t2 query sess2 (handle cfg t1 query sess1 s))
          \<and> is_visitor (handle cfg t3 query0 (session (handle cfg t1 query sess1 s))
               (handle cfg t2 query sess2 (handle cfg t1 query sess1 s)))
          \<and> visitor (handle cfg t3 query0 (session (handle cfg t1 query sess1 s))
               (handle cfg t2 query sess2 (handle cfg t1 query sess1 s)))
              = Some (v\<lparr>usage_count := usage_count v + 3\<rparr>)
          \<and> objects (handle cfg t3 query0 (session (handle cfg t1 query sess1 s))
               (handle cfg t2 query sess2 (handle cfg t1 query sess1 s))) u
              = Some (v\<lparr>usage_count := usage_count v + 3\<rparr>))"
proof -
  have by_token: "VisitorRequestMiddleware cfg now (VisitorSessionMiddleware cfg get_response) s =
      get_response
        (s\<lparr>session := (session s)(VISITOR_SESSION_KEY cfg \<mapsto> u),
           visitor := Some v, is_visitor := True\<rparr>)"
    if "GET s (VISITOR_QUERYSTRING_KEY cfg) = Some u" and "objects s u = Some v"
      and "is_valid cfg now v"
    using that assms
    by (simp add: request_valid_token session_fresh_visitor) (rule state_cong; simp)
  have by_session:
    "VisitorRequestMiddleware cfg now3 (VisitorSessionMiddleware cfg get_response) s3 =
      get_response (s3\<lparr>visitor := Some v3, is_visitor := True\<rparr>)"
    if "falsy (GET s3 (VISITOR_QUERYSTRING_KEY cfg))"
      and "session s3 (VISITOR_SESSION_KEY cfg) = Some u"
      and "objects s3 u = Some v3" and "is_active v3"
    using that assms(1)
    by (simp add: request_no_token session_active_visitor)
  have stash_twice:
    "stash_visitor_uuid cfg (stash_visitor_uuid cfg s) = stash_visitor_uuid cfg s"
    by (simp add: stash_visitor_uuid_def split: option.splits)
  have stage_twice:
    "VisitorSessionMiddleware cfg (\<lambda>r. r) (VisitorSessionMiddleware cfg (\<lambda>r. r) s) =
       VisitorSessionMiddleware cfg (\<lambda>r. r) s"
    if "visitor s \<noteq> None"
    using that
    by (auto simp add: VisitorSessionMiddleware_def stash_visitor_uuid_def)
  note scenario = three_requests [OF assms, of s query cfg query0 t1 t2 sess1 sess2 t3]
  from by_token by_session stash_twice stage_twice scenario show ?thesis
    by blast
qed

theorem C3_witness:
  "is_visitor (handle default_settings 10 [''vuid'' \<mapsto> ''f3d0''] Map.empty
      (blank\<lparr>objects := [''f3d0'' \<mapsto> fred]\<rparr>))
   \<and> session (handle default_settings 10 [''vuid'' \<mapsto> ''f3d0''] Map.empty
      (blank\<lparr>objects := [''f3d0'' \<mapsto> fred]\<rparr>)) ''visitor:session'' = Some ''f3d0''
   \<and> is_visitor (handle default_settings 20 [''vuid'' \<mapsto> ''f3d0''] Map.empty
      (handle default_settings 10 [''vuid'' \<mapsto> ''f3d0''] Map.empty
        (blank\<lparr>objects := [''f3d0'' \<mapsto> fred]\<rparr>)))
   \<and> is_visitor (handle default_settings 900 Map.empty
      (session (handle default_settings 10 [''vuid'' \<mapsto> ''f3d0''] Map.empty
        (blank\<lparr>objects := [''f3d0'' \<mapsto> fred]\<rparr>)))
      (handle default_settings 20 [''vuid'' \<mapsto> ''f3d0''] Map.empty
        (handle default_settings 10 [''vuid'' \<mapsto> ''f3d0''] Map.empty
          (blank\<lparr>objects := [''f3d0'' \<mapsto> fred]\<rparr>))))
   \<and> visitor (handle default_settings 900 Map.empty
      (session (handle default_settings 10 [''vuid'' \<mapsto> ''f3d0''] Map.empty
        (blank\<lparr>objects := [''f3d0'' \<mapsto> fred]\<rparr>)))
      (handle default_settings 20 [''vuid'' \<mapsto> ''f3d0''] Map.empty
        (handle default_settings 10 [''vuid'' \<mapsto> ''f3d0''] Map.empty
          (blank\<lparr>objects := [''f3d0'' \<mapsto> fred]\<rparr>))))
       = Some (fred\<lparr>usage_count := 3\<rparr>)"
proof -
  have h1: "''f3d0'' \<noteq> []" by simp
  have h2: "uuid fred = ''f3d0''" by (simp add: fred_def)
  have pre: "objects (blank\<lparr>objects := [''f3d0'' \<mapsto> fred]\<rparr>) ''f3d0'' = Some fred
      \<and> [''vuid'' \<mapsto> ''f3d0''] (VISITOR_QUERYSTRING_KEY default_settings) = Some ''f3d0''
      \<and> falsy (Map.empty (VISITOR_QUERYSTRING_KEY default_settings))
      \<and> is_valid default_settings 10 fred \<and> is_valid default_settings 20 fred
      \<and> usage_count fred + 3 \<le> max_usages_allowed fred"
    by (simp add: default_settings_def blank_def fred_def is_valid_def)
  note c = C3_identifier_round_trip_through_session
    [OF h1 h2, where s = "blank\<lparr>objects := [''f3d0'' \<mapsto> fred]\<rparr>" and cfg = default_settings
      and query = "[''vuid'' \<mapsto> ''f3d0'']" and ?query0.0 = Map.empty
      and ?t1.0 = 10 and ?t2.0 = 20 and ?t3.0 = 900
      and ?sess1.0 = Map.empty and ?sess2.0 = Map.empty
      and now = 10 and ?now3.0 = 900 and ?s3.0 = blank and ?v3.0 = fred
      and get_response = "\<lambda>r. r"]
  have "is_visitor (handle default_settings 10 [''vuid'' \<mapsto> ''f3d0''] Map.empty
        (blank\<lparr>objects := [''f3d0'' \<mapsto> fred]\<rparr>))
      \<and> session (handle default_settings 10 [''vuid'' \<mapsto> ''f3d0''] Map.empty
        (blank\<lparr>objects := [''f3d0'' \<mapsto> fred]\<rparr>)) (VISITOR_SESSION_KEY default_settings)
          = Some ''f3d0''
      \<and> is_visitor (handle default_settings 20 [''vuid'' \<mapsto> ''f3d0''] Map.empty
        (handle default_settings 10 [''vuid'' \<mapsto> ''f3d0''] Map.empty
          (blank\<lparr>objects := [''f3d0'' \<mapsto> fred]\<rparr>)))
      \<and> is_visitor (handle default_settings 900 Map.empty
        (session (handle default_settings 10 [''vuid'' \<mapsto> ''f3d0''] Map.empty
          (blank\<lparr>objects := [''f3d0'' \<mapsto> fred]\<rparr>)))
        (handle default_settings 20 [''vuid'' \<mapsto> ''f3d0''] Map.empty
          (handle default_settings 10 [''vuid'' \<mapsto> ''f3d0''] Map.empty
            (blank\<lparr>objects := [''f3d0'' \<mapsto> fred]\<rparr>))))
      \<and> visitor (handle default_settings 900 Map.empty
        (session (handle default_settings 10 [''vuid'' \<mapsto> ''f3d0''] Map.empty
          (blank\<lparr>objects := [''f3d0'' \<mapsto> fred]\<rparr>)))
        (handle default_settings 20 [''vuid'' \<mapsto> ''f3d0''] Map.empty
          (handle default_settings 10 [''vuid'' \<mapsto> ''f3d0''] Map.empty
            (blank\<lparr>objects := [''f3d0'' \<mapsto> fred]\<rparr>))))
         = Some (fred\<lparr>usage_count := usage_count fred + 3\<rparr>)"
    using c pre by blast
  then show ?thesis
    by (simp add: default_settings_def fred_def)
qed

end
